theory Spec2Isabelle
  imports Main
begin

section \<open>The source text\<close>

text \<open>
  The repository is one header, \<^verbatim>\<open>music/SystemHeaders.h\<close>. It is embedded as the
  list of its twelve lines, byte for byte. The comment of line 4 is UTF-8 text; its
  bytes outside ASCII are written by their codes. Line 12 ends in a blank and the
  file has no final newline.
\<close>

definition SystemHeaders_h_text :: "string list" where
  "SystemHeaders_h_text =
    [''#ifndef SystemHeaders_h'',
     ''#define SystemHeaders_h'',
     '''',
     ''// '' @ [CHR 0xE5, CHR 0xAF, CHR 0xBC, CHR 0xE5, CHR 0x85, CHR 0xA5,
               CHR 0xE7, CHR 0xB3, CHR 0xBB, CHR 0xE7, CHR 0xBB, CHR 0x9F,
               CHR 0xE5, CHR 0xA5, CHR 0x97, CHR 0xE6, CHR 0x8E, CHR 0xA5,
               CHR 0xE5, CHR 0xAD, CHR 0x97] @ ''API'',
     ''#include <sys/socket.h>'',
     ''#include <netinet/in.h>'',
     ''#include <arpa/inet.h>'',
     ''#include <unistd.h>'',
     ''#include <netdb.h>'',
     ''#include <ifaddrs.h>'',
     '''',
     ''#endif /* SystemHeaders_h */ '']"

section \<open>Reading a line\<close>

text \<open>
  What the file does is what the C preprocessor does with it. The preprocessor reads
  the text line by line: comments are replaced by a blank, and a line whose first
  character that is not white space is \<^verbatim>\<open>#\<close> is a directive.
\<close>

definition is_space :: "char \<Rightarrow> bool" where
  "is_space c = (c = CHR '' '' \<or> c = CHR 0x09)"

definition is_ident_char :: "char \<Rightarrow> bool" where
  "is_ident_char c =
    (let n = (of_char c :: nat)
     in (97 \<le> n \<and> n \<le> 122) \<or> (65 \<le> n \<and> n \<le> 90) \<or> (48 \<le> n \<and> n \<le> 57) \<or> n = 95)"

definition is_ident :: "string \<Rightarrow> bool" where
  "is_ident w = (w \<noteq> [] \<and> filter is_ident_char w = w)"

definition trim :: "string \<Rightarrow> string" where
  "trim s = rev (dropWhile is_space (rev (dropWhile is_space s)))"

text \<open>
  A line without its comments: a line comment runs to the end of the line, a block
  comment is replaced by one blank. The flag says whether the text read is inside a
  block comment. (A block comment that spans lines, and comment markers inside string
  literals, do not occur in the file and are not modelled.)
\<close>

fun strip :: "bool \<Rightarrow> string \<Rightarrow> string" where
  "strip True (c # d # r) =
     (if c = CHR ''*'' \<and> d = CHR ''/'' then CHR '' '' # strip False r
      else strip True (d # r))"
| "strip True r = []"
| "strip False (c # d # r) =
     (if c = CHR ''/'' \<and> d = CHR ''/'' then []
      else if c = CHR ''/'' \<and> d = CHR ''*'' then strip True r
      else c # strip False (d # r))"
| "strip False r = r"

definition strip_comments :: "string \<Rightarrow> string" where
  "strip_comments l = strip False l"

text \<open>
  The lines the model tells apart. \<open>Unsupported\<close> is every directive outside the
  fragment modelled here (and every malformed one): processing one is an error of the
  model, so that a result never rests on a directive read wrongly.
\<close>

datatype line =
    Blank
  | Comment
  | Ifndef string
  | Define string string
  | Undef string
  | IncludeSys string
  | Endif
  | Unsupported string
  | Text string

text \<open>The directive whose text after the \<^verbatim>\<open>#\<close> is \<open>d\<close>.\<close>

definition parse_directive :: "string \<Rightarrow> line" where
  "parse_directive d =
    (let r = dropWhile is_space d;
         kw = takeWhile is_ident_char r;
         arg = trim (dropWhile is_ident_char r)
     in if kw = ''ifndef'' then (if is_ident arg then Ifndef arg else Unsupported d)
        else if kw = ''define'' then
          (let name = takeWhile is_ident_char arg;
               rest = dropWhile is_ident_char arg
           in if name = [] then Unsupported d
              else if rest = [] then Define name []
              else if is_space (hd rest) then Define name (trim rest)
              else Unsupported d)
        else if kw = ''undef'' then (if is_ident arg then Undef arg else Unsupported d)
        else if kw = ''include'' then
          (if 2 \<le> length arg \<and> hd arg = CHR ''<'' \<and> last arg = CHR ''>''
           then IncludeSys (butlast (tl arg)) else Unsupported d)
        else if kw = ''endif'' then (if arg = [] then Endif else Unsupported d)
        else Unsupported d)"

definition parse_line :: "string \<Rightarrow> line" where
  "parse_line l =
    (let t = trim (strip_comments l)
     in if t = [] then (if trim l = [] then Blank else Comment)
        else if hd t = CHR ''#'' then parse_directive (tl t)
        else Text t)"

text \<open>
  The same reading, as two tests on the text of a line: whether nothing but white space
  and comments stands on it, and whether it is a directive.
\<close>

definition is_blank_or_comment :: "string \<Rightarrow> bool" where
  "is_blank_or_comment l = (trim (strip_comments l) = [])"

definition is_directive :: "string \<Rightarrow> bool" where
  "is_directive l = (case trim (strip_comments l) of [] \<Rightarrow> False | c # r \<Rightarrow> c = CHR ''#'')"

definition SystemHeaders_h :: "line list" where
  "SystemHeaders_h = map parse_line SystemHeaders_h_text"

section \<open>Processing the lines\<close>

text \<open>
  The state of the preprocessor inside a translation unit: the macros defined so far
  (each with its replacement text), the text passed on to the compiler, and the system
  headers opened so far by the include directives of the file, in order.
\<close>

type_synonym macro_table = "string \<rightharpoonup> string"

record pstate =
  macros :: macro_table
  emitted :: "string list"
  opened :: "string list"

text \<open>
  The system headers are not part of the repository. A platform says which header names
  it provides, and a header it provides is taken by its effect: from the macros defined
  when it is opened, the text it contributes and the macros defined after it. A platform
  that lacks a header answers \<open>None\<close>. A header that is there is read without error:
  what may go wrong inside a system header is the platform's, not the file's.
\<close>

type_synonym header = "macro_table \<Rightarrow> string list \<times> macro_table"

type_synonym platform = "string \<Rightarrow> header option"

text \<open>The errors carry the number of the line they are raised at.\<close>

datatype pp_error =
    MissingHeader nat string
  | StrayEndif nat
  | UnterminatedConditional
  | UnsupportedLine nat
  | Redefinition nat string

definition open_header :: "platform \<Rightarrow> nat \<Rightarrow> string \<Rightarrow> pstate \<Rightarrow> pp_error + pstate" where
  "open_header P n h s =
    (case P h of
       None \<Rightarrow> Inl (MissingHeader n h)
     | Some H \<Rightarrow>
        (case H (macros s) of
           (txt, M) \<Rightarrow> Inr \<lparr>macros = M, emitted = emitted s @ txt, opened = opened s @ [h]\<rparr>))"

text \<open>
  The stack of open conditionals holds, for each, whether its lines are processed; a
  conditional inside a skipped one is skipped.
\<close>

definition active :: "bool list \<Rightarrow> bool" where
  "active cs = (case cs of [] \<Rightarrow> True | c # _ \<Rightarrow> c)"

text \<open>
  \<open>pp P n ls cs s\<close> processes the lines \<open>ls\<close>, the first of which has number \<open>n\<close>,
  under the open conditionals \<open>cs\<close>. A conditional still open at the end of the file is
  an error, and so is the definition of a macro that is defined with another text. A
  line outside the modelled fragment is an error wherever it stands, also in a skipped
  part. Program text is passed on as it is; the file has none, and the replacement of
  macros in it is not modelled.
\<close>

fun pp :: "platform \<Rightarrow> nat \<Rightarrow> line list \<Rightarrow> bool list \<Rightarrow> pstate \<Rightarrow> pp_error + pstate" where
  "pp P n [] cs s = (if cs = [] then Inr s else Inl UnterminatedConditional)"
| "pp P n (Blank # ls) cs s = pp P (Suc n) ls cs s"
| "pp P n (Comment # ls) cs s = pp P (Suc n) ls cs s"
| "pp P n (Ifndef m # ls) cs s =
     pp P (Suc n) ls ((active cs \<and> macros s m = None) # cs) s"
| "pp P n (Define m b # ls) cs s =
     (if active cs then
        (case macros s m of
           None \<Rightarrow> pp P (Suc n) ls cs (s\<lparr>macros := (macros s)(m \<mapsto> b)\<rparr>)
         | Some b' \<Rightarrow> if b' = b then pp P (Suc n) ls cs s else Inl (Redefinition n m))
      else pp P (Suc n) ls cs s)"
| "pp P n (Undef m # ls) cs s =
     (if active cs then pp P (Suc n) ls cs (s\<lparr>macros := (macros s)(m := None)\<rparr>)
      else pp P (Suc n) ls cs s)"
| "pp P n (IncludeSys h # ls) cs s =
     (if active cs then
        (case open_header P n h s of
           Inl e \<Rightarrow> Inl e
         | Inr s' \<Rightarrow> pp P (Suc n) ls cs s')
      else pp P (Suc n) ls cs s)"
| "pp P n (Endif # ls) cs s =
     (case cs of [] \<Rightarrow> Inl (StrayEndif n) | c # cs' \<Rightarrow> pp P (Suc n) ls cs' s)"
| "pp P n (Unsupported d # ls) cs s = Inl (UnsupportedLine n)"
| "pp P n (Text t # ls) cs s =
     (if active cs then pp P (Suc n) ls cs (s\<lparr>emitted := emitted s @ [t]\<rparr>)
      else pp P (Suc n) ls cs s)"

text \<open>
  Including the file: its lines are processed from line 1 with no conditional open,
  in the state the translation unit has reached.
\<close>

definition include_file :: "platform \<Rightarrow> pstate \<Rightarrow> pp_error + pstate" where
  "include_file P s = pp P 1 SystemHeaders_h [] s"

text \<open>Including the file \<open>k\<close> times in a row; an error ends the translation.\<close>

primrec include_times :: "platform \<Rightarrow> nat \<Rightarrow> pstate \<Rightarrow> pp_error + pstate" where
  "include_times P 0 s = Inr s"
| "include_times P (Suc k) s =
     (case include_file P s of Inl e \<Rightarrow> Inl e | Inr s' \<Rightarrow> include_times P k s')"

section \<open>What the lines contain\<close>

text \<open>
  The header names of the include directives, the macros defined (each with its
  replacement text) and the macros undefined, in the order of the lines; and the lines
  that are program text or a directive outside the modelled fragment.
\<close>

definition include_targets :: "line list \<Rightarrow> string list" where
  "include_targets ls = concat (map (\<lambda>l. case l of IncludeSys h \<Rightarrow> [h] | _ \<Rightarrow> []) ls)"

definition defined_macros :: "line list \<Rightarrow> (string \<times> string) list" where
  "defined_macros ls = concat (map (\<lambda>l. case l of Define m b \<Rightarrow> [(m, b)] | _ \<Rightarrow> []) ls)"

definition undefined_macros :: "line list \<Rightarrow> string list" where
  "undefined_macros ls = concat (map (\<lambda>l. case l of Undef m \<Rightarrow> [m] | _ \<Rightarrow> []) ls)"

definition text_lines :: "line list \<Rightarrow> string list" where
  "text_lines ls =
    concat (map (\<lambda>l. case l of Text t \<Rightarrow> [t] | Unsupported d \<Rightarrow> [CHR ''#'' # d] | _ \<Rightarrow> []) ls)"

text \<open>
  The number of conditionals open after the lines \<open>ls\<close>, from \<open>d\<close> open ones;
  \<open>None\<close> when a line closes a conditional that is not open.
\<close>

fun cond_depth :: "line list \<Rightarrow> nat \<Rightarrow> nat option" where
  "cond_depth [] d = Some d"
| "cond_depth (Ifndef m # ls) d = cond_depth ls (Suc d)"
| "cond_depth (Endif # ls) d = (case d of 0 \<Rightarrow> None | Suc d' \<Rightarrow> cond_depth ls d')"
| "cond_depth (l # ls) d = cond_depth ls d"

text \<open>
  The system headers \<open>hs\<close> opened one after the other, the first from line \<open>n\<close>: what a
  run of include directives does where it is processed.
\<close>

fun open_headers :: "platform \<Rightarrow> nat \<Rightarrow> string list \<Rightarrow> pstate \<Rightarrow> pp_error + pstate" where
  "open_headers P n [] s = Inr s"
| "open_headers P n (h # hs) s =
     (case open_header P n h s of
        Inl e \<Rightarrow> Inl e
      | Inr s' \<Rightarrow> open_headers P (Suc n) hs s')"

text \<open>
  The text that the headers \<open>hs\<close> contribute when they are opened one after the other,
  the first with the macros \<open>M\<close> defined; a header that the platform lacks ends the run.
\<close>

fun header_texts :: "platform \<Rightarrow> string list \<Rightarrow> macro_table \<Rightarrow> string list" where
  "header_texts P [] M = []"
| "header_texts P (h # hs) M =
     (case P h of
        None \<Rightarrow> []
      | Some H \<Rightarrow> (case H M of (t, M') \<Rightarrow> t @ header_texts P hs M'))"

text \<open>
  The macros defined after the headers \<open>hs\<close> have been opened one after the other, the
  first with the macros \<open>M\<close> defined: each header works on what the one before left.
\<close>

fun header_macros :: "platform \<Rightarrow> string list \<Rightarrow> macro_table \<Rightarrow> macro_table" where
  "header_macros P [] M = M"
| "header_macros P (h # hs) M =
     (case P h of
        None \<Rightarrow> M
      | Some H \<Rightarrow> (case H M of (t, M') \<Rightarrow> header_macros P hs M'))"

section \<open>Platforms\<close>

text \<open>
  A platform keeps a macro when none of its headers undefines it. The names a program
  may use for its own macros are not the platform's to touch, so the platforms the file
  is written for keep the macro of its guard.
\<close>

definition keeps_macro :: "platform \<Rightarrow> string \<Rightarrow> bool" where
  "keeps_macro P m = (\<forall>h H M. P h = Some H \<longrightarrow> M m \<noteq> None \<longrightarrow> snd (H M) m \<noteq> None)"

text \<open>
  Two platforms to run the file on: one that provides the six headers, each
  contributing one declaration and no macro, and the same platform without
  \<^verbatim>\<open>ifaddrs.h\<close>. A translation unit starts with no macro and no text.
\<close>

definition declares :: "string list \<Rightarrow> header" where
  "declares txt M = (txt, M)"

definition posix_sample :: platform where
  "posix_sample h =
    (if h = ''sys/socket.h'' then Some (declares [''int socket(int, int, int);''])
     else if h = ''netinet/in.h'' then Some (declares [''struct sockaddr_in;''])
     else if h = ''arpa/inet.h'' then Some (declares [''int inet_pton(int, const char *, void *);''])
     else if h = ''unistd.h'' then Some (declares [''int close(int);''])
     else if h = ''netdb.h'' then Some (declares [''struct addrinfo;''])
     else if h = ''ifaddrs.h'' then Some (declares [''struct ifaddrs;''])
     else None)"

definition without_ifaddrs :: platform where
  "without_ifaddrs = posix_sample(''ifaddrs.h'' := None)"

definition start :: pstate where
  "start = \<lparr>macros = Map.empty, emitted = [], opened = []\<rparr>"

text \<open>
  A platform in the manner of the C libraries in use: every header has a guard macro of
  its own and contributes its text only where that macro is not yet defined, and the
  internet address header brings the socket address type with it unless the socket
  header has been read before. The headers of this platform define macros, and what
  the second header contributes depends on whether the first came before it.
\<close>

definition guarded :: "string \<Rightarrow> string list \<Rightarrow> header" where
  "guarded g t M = (case M g of None \<Rightarrow> (t, M(g \<mapsto> [])) | Some b \<Rightarrow> ([], M))"

definition netinet_in :: header where
  "netinet_in M =
    (case M ''_NETINET_IN_H'' of
       Some b \<Rightarrow> ([], M)
     | None \<Rightarrow>
        (case M ''_SYS_SOCKET_H'' of
           None \<Rightarrow>
             ([''struct sockaddr;'', ''struct sockaddr_in;''],
              M(''_SYS_SOCKET_H'' \<mapsto> [], ''_NETINET_IN_H'' \<mapsto> []))
         | Some b \<Rightarrow> ([''struct sockaddr_in;''], M(''_NETINET_IN_H'' \<mapsto> []))))"

definition libc_sample :: platform where
  "libc_sample h =
    (if h = ''sys/socket.h'' then Some (guarded ''_SYS_SOCKET_H'' [''struct sockaddr;''])
     else if h = ''netinet/in.h'' then Some netinet_in
     else if h = ''arpa/inet.h'' then
       Some (guarded ''_ARPA_INET_H'' [''int inet_pton(int, const char *, void *);''])
     else if h = ''unistd.h'' then Some (guarded ''_UNISTD_H'' [''int close(int);''])
     else if h = ''netdb.h'' then Some (guarded ''_NETDB_H'' [''struct addrinfo;''])
     else if h = ''ifaddrs.h'' then Some (guarded ''_IFADDRS_H'' [''struct ifaddrs;''])
     else None)"

text \<open>A translation unit that has a macro and a declaration of its own before the inclusion.\<close>

definition app_unit :: pstate where
  "app_unit =
    \<lparr>macros = [''APP_VERSION'' \<mapsto> ''3''], emitted = [''int app_main(void);''], opened = []\<rparr>"

text \<open>
  Of the six headers that the file names, POSIX (IEEE Std 1003.1, Base Definitions,
  Headers) specifies five. \<^verbatim>\<open>ifaddrs.h\<close>, the header of \<^verbatim>\<open>getifaddrs\<close>, is not one
  of them: it comes from the BSD systems. As far as the file can tell, a platform is
  POSIX-compatible when it provides the headers that POSIX specifies.
\<close>

definition posix_headers :: "string list" where
  "posix_headers =
    [''sys/socket.h'', ''netinet/in.h'', ''arpa/inet.h'', ''unistd.h'', ''netdb.h'']"

definition posix_compatible :: "platform \<Rightarrow> bool" where
  "posix_compatible P = (find (\<lambda>h. P h = None) posix_headers = None)"

section \<open>The lines of the file\<close>

lemma SystemHeaders_h_parsed:
  "SystemHeaders_h =
    [Ifndef ''SystemHeaders_h'',
     Define ''SystemHeaders_h'' [],
     Blank,
     Comment,
     IncludeSys ''sys/socket.h'',
     IncludeSys ''netinet/in.h'',
     IncludeSys ''arpa/inet.h'',
     IncludeSys ''unistd.h'',
     IncludeSys ''netdb.h'',
     IncludeSys ''ifaddrs.h'',
     Blank,
     Endif]"
  by (simp add: SystemHeaders_h_def SystemHeaders_h_text_def parse_line_def parse_directive_def
      strip_comments_def
      trim_def is_space_def is_ident_def is_ident_char_def Let_def)

section \<open>The two ways through the file\<close>

lemma include_file_guarded:
  assumes "macros s ''SystemHeaders_h'' \<noteq> None"
  shows "include_file P s = Inr s"
proof -
  from assms obtain b where "macros s ''SystemHeaders_h'' = Some b"
    by auto
  then show ?thesis
    by (simp add: include_file_def SystemHeaders_h_parsed active_def)
qed

lemma include_file_fresh:
  assumes "macros s ''SystemHeaders_h'' = None"
  shows "include_file P s =
    open_headers P 5
      [''sys/socket.h'', ''netinet/in.h'', ''arpa/inet.h'', ''unistd.h'', ''netdb.h'', ''ifaddrs.h'']
      (s\<lparr>macros := (macros s)(''SystemHeaders_h'' \<mapsto> [])\<rparr>)"
  using assms
  by (simp add: include_file_def SystemHeaders_h_parsed active_def eval_nat_numeral
      split: sum.splits)

lemma include_targets_file:
  "include_targets SystemHeaders_h =
    [''sys/socket.h'', ''netinet/in.h'', ''arpa/inet.h'', ''unistd.h'', ''netdb.h'', ''ifaddrs.h'']"
  by (simp add: include_targets_def SystemHeaders_h_parsed)

lemma include_file_fresh_targets:
  assumes "macros s ''SystemHeaders_h'' = None"
  shows "include_file P s =
    open_headers P 5 (include_targets SystemHeaders_h)
      (s\<lparr>macros := (macros s)(''SystemHeaders_h'' \<mapsto> [])\<rparr>)"
  using assms by (simp add: include_file_fresh include_targets_file)

lemma text_lines_file: "text_lines SystemHeaders_h = []"
  by (simp add: text_lines_def SystemHeaders_h_parsed)

lemma defined_macros_file: "defined_macros SystemHeaders_h = [(''SystemHeaders_h'', [])]"
  by (simp add: defined_macros_def SystemHeaders_h_parsed)

lemma undefined_macros_file: "undefined_macros SystemHeaders_h = []"
  by (simp add: undefined_macros_def SystemHeaders_h_parsed)

lemma cond_depth_file: "cond_depth SystemHeaders_h 0 = Some 0"
  by (simp add: SystemHeaders_h_parsed)

section \<open>Opening a run of headers\<close>

text \<open>
  The properties of \<open>open_headers\<close> hold for every list of header names, by induction
  on the list; the state and the line number change along the run and are generalised.
\<close>

lemma open_headers_find_Some:
  "find (\<lambda>h. P h = None) hs = Some h \<Longrightarrow>
   open_headers P n hs s = Inl (MissingHeader (n + length (takeWhile (\<lambda>h. P h \<noteq> None) hs)) h)"
  by (induction hs arbitrary: n s)
     (auto simp: open_header_def split: option.splits prod.splits if_splits)

lemma open_headers_Inl:
  "open_headers P n hs s = Inl e \<Longrightarrow>
   \<exists>h. find (\<lambda>h. P h = None) hs = Some h \<and>
       e = MissingHeader (n + length (takeWhile (\<lambda>h. P h \<noteq> None) hs)) h"
proof (induction hs arbitrary: n s)
  case Nil
  then show ?case by simp
next
  case (Cons h hs)
  show ?case
  proof (cases "P h")
    case None
    with Cons.prems show ?thesis by (simp add: open_header_def)
  next
    case (Some H)
    obtain t M where HM: "H (macros s) = (t, M)"
      by (cases "H (macros s)")
    let ?s1 = "\<lparr>macros = M, emitted = emitted s @ t, opened = opened s @ [h]\<rparr>"
    from Cons.prems Some HM have "open_headers P (Suc n) hs ?s1 = Inl e"
      by (simp add: open_header_def)
    from Cons.IH [OF this] Some show ?thesis by simp
  qed
qed

lemma open_headers_cong:
  "(\<forall>h\<in>set hs. P h = Q h) \<Longrightarrow> open_headers P n hs s = open_headers Q n hs s"
  by (induction hs arbitrary: n s)
     (auto simp: open_header_def split: option.splits prod.splits sum.splits)

lemma open_headers_keeps:
  "keeps_macro P m \<Longrightarrow> macros s m \<noteq> None \<Longrightarrow> open_headers P n hs s = Inr s' \<Longrightarrow>
   macros s' m \<noteq> None"
proof (induction hs arbitrary: n s)
  case Nil
  then show ?case by simp
next
  case (Cons h hs)
  then obtain H where H: "P h = Some H"
    by (auto simp: open_header_def split: option.splits)
  obtain t M where HM: "H (macros s) = (t, M)"
    by (cases "H (macros s)")
  let ?s1 = "\<lparr>macros = M, emitted = emitted s @ t, opened = opened s @ [h]\<rparr>"
  from Cons.prems(3) H HM have run: "open_headers P (Suc n) hs ?s1 = Inr s'"
    by (simp add: open_header_def)
  from Cons.prems(1,2) H HM have "M m \<noteq> None"
    unfolding keeps_macro_def by (metis snd_conv)
  then have "macros ?s1 m \<noteq> None" by simp
  from Cons.IH [OF Cons.prems(1) this run] show ?case .
qed

lemma open_headers_macros:
  "(\<forall>h H M. P h = Some H \<longrightarrow> snd (H M) = M) \<Longrightarrow> open_headers P n hs s = Inr s' \<Longrightarrow>
   macros s' = macros s"
proof (induction hs arbitrary: n s)
  case Nil
  then show ?case by simp
next
  case (Cons h hs)
  then obtain H where H: "P h = Some H"
    by (auto simp: open_header_def split: option.splits)
  obtain t M where HM: "H (macros s) = (t, M)"
    by (cases "H (macros s)")
  let ?s1 = "\<lparr>macros = M, emitted = emitted s @ t, opened = opened s @ [h]\<rparr>"
  from Cons.prems(2) H HM have run: "open_headers P (Suc n) hs ?s1 = Inr s'"
    by (simp add: open_header_def)
  from Cons.prems(1) H HM have "M = macros s"
    by (metis snd_conv)
  with Cons.IH [OF Cons.prems(1) run] show ?case by simp
qed

text \<open>
  The whole of a run, in terms of the platform alone: it stops at the first header that
  the platform lacks, and otherwise the headers' text is appended, their macros are
  threaded through, and their names are logged.
\<close>

lemma open_headers_eq:
  "open_headers P n hs s =
    (case find (\<lambda>h. P h = None) hs of
       Some h \<Rightarrow> Inl (MissingHeader (n + length (takeWhile (\<lambda>h. P h \<noteq> None) hs)) h)
     | None \<Rightarrow>
         Inr \<lparr>macros = header_macros P hs (macros s),
              emitted = emitted s @ header_texts P hs (macros s),
              opened = opened s @ hs\<rparr>)"
proof (induction hs arbitrary: n s)
  case Nil
  show ?case by simp
next
  case (Cons h hs)
  show ?case
  proof (cases "P h")
    case None
    then show ?thesis by (simp add: open_header_def)
  next
    case (Some H)
    obtain t M where HM: "H (macros s) = (t, M)"
      by (cases "H (macros s)")
    with Some show ?thesis
      by (simp add: open_header_def Cons.IH split: option.splits)
  qed
qed

lemma header_macros_keeps:
  "keeps_macro P m \<Longrightarrow> M m \<noteq> None \<Longrightarrow> header_macros P hs M m \<noteq> None"
proof (induction hs arbitrary: M)
  case Nil
  then show ?case by simp
next
  case (Cons h hs)
  show ?case
  proof (cases "P h")
    case None
    with Cons.prems show ?thesis by simp
  next
    case (Some H)
    obtain t M' where HM: "H M = (t, M')"
      by (cases "H M")
    from Cons.prems Some HM have "M' m \<noteq> None"
      unfolding keeps_macro_def by (metis snd_conv)
    with Cons.IH [of M'] Cons.prems(1) have "header_macros P hs M' m \<noteq> None"
      by simp
    with Some HM show ?thesis by simp
  qed
qed

lemma header_macros_untouched:
  "(\<forall>h H M. P h = Some H \<longrightarrow> snd (H M) m = M m) \<Longrightarrow> header_macros P hs M m = M m"
proof (induction hs arbitrary: M)
  case Nil
  then show ?case by simp
next
  case (Cons h hs)
  show ?case
  proof (cases "P h")
    case None
    then show ?thesis by simp
  next
    case (Some H)
    obtain t M' where HM: "H M = (t, M')"
      by (cases "H M")
    from Cons.prems Some HM have "M' m = M m"
      by (metis snd_conv)
    with Cons.IH [OF Cons.prems, of M'] Some HM show ?thesis by simp
  qed
qed

section \<open>Including the file\<close>

text \<open>
  All that an inclusion does. With the guard defined it returns the state as it is.
  Otherwise it defines the guard and opens the six headers in the order of the file: it
  stops, at the line of the directive, at the first header that the platform lacks, and
  when all are there the result is the old state with the guard defined and with what
  the six headers contribute.
\<close>

lemma include_file_behaviour:
  "include_file P s =
    (if macros s ''SystemHeaders_h'' \<noteq> None then Inr s
     else
       (case find (\<lambda>h. P h = None) (include_targets SystemHeaders_h) of
          Some h \<Rightarrow>
            Inl (MissingHeader
                  (5 + length (takeWhile (\<lambda>h. P h \<noteq> None) (include_targets SystemHeaders_h))) h)
        | None \<Rightarrow>
            Inr \<lparr>macros =
                   header_macros P (include_targets SystemHeaders_h)
                     ((macros s)(''SystemHeaders_h'' \<mapsto> [])),
                 emitted =
                   emitted s @
                   header_texts P (include_targets SystemHeaders_h)
                     ((macros s)(''SystemHeaders_h'' \<mapsto> [])),
                 opened = opened s @ include_targets SystemHeaders_h\<rparr>))"
proof (cases "macros s ''SystemHeaders_h''")
  case None
  then show ?thesis
    by (simp add: include_file_fresh_targets open_headers_eq split: option.splits)
next
  case (Some b)
  then show ?thesis by (simp add: include_file_guarded)
qed

lemma include_file_Inr:
  assumes "macros s ''SystemHeaders_h'' = None" and "include_file P s = Inr s'"
  shows "find (\<lambda>h. P h = None) (include_targets SystemHeaders_h) = None"
    and "s' = \<lparr>macros =
                   header_macros P (include_targets SystemHeaders_h)
                     ((macros s)(''SystemHeaders_h'' \<mapsto> [])),
                 emitted =
                   emitted s @
                   header_texts P (include_targets SystemHeaders_h)
                     ((macros s)(''SystemHeaders_h'' \<mapsto> [])),
                 opened = opened s @ include_targets SystemHeaders_h\<rparr>"
  using assms by (auto simp: include_file_behaviour split: option.splits)


text \<open>
  After an inclusion that succeeds the guard is defined, on a platform that keeps it;
  from then on every inclusion leaves the state as it is.
\<close>

lemma include_file_keeps_guard:
  assumes "keeps_macro P ''SystemHeaders_h''" and "include_file P s = Inr s'"
  shows "macros s' ''SystemHeaders_h'' \<noteq> None"
proof (cases "macros s ''SystemHeaders_h''")
  case None
  let ?s0 = "s\<lparr>macros := (macros s)(''SystemHeaders_h'' \<mapsto> [])\<rparr>"
  from None assms(2)
  have run: "open_headers P 5 (include_targets SystemHeaders_h) ?s0 = Inr s'"
    by (simp add: include_file_fresh_targets)
  have "macros ?s0 ''SystemHeaders_h'' \<noteq> None" by simp
  from open_headers_keeps [OF assms(1) this run] show ?thesis .
next
  case (Some b)
  then have "include_file P s = Inr s" by (simp add: include_file_guarded)
  with assms(2) Some show ?thesis by simp
qed

lemma include_times_guarded:
  "macros s ''SystemHeaders_h'' \<noteq> None \<Longrightarrow> include_times P k s = Inr s"
  by (induction k) (simp_all add: include_file_guarded)

lemma include_times_Suc:
  assumes "keeps_macro P ''SystemHeaders_h''"
  shows "include_times P (Suc k) s = include_file P s"
proof (cases "include_file P s")
  case (Inl e)
  then show ?thesis by simp
next
  case (Inr s')
  from include_file_keeps_guard [OF assms Inr]
  have "include_times P k s' = Inr s'" by (rule include_times_guarded)
  with Inr show ?thesis by simp
qed

lemma include_file_Inl:
  assumes "include_file P s = Inl e"
  shows "macros s ''SystemHeaders_h'' = None \<and>
    (\<exists>h. find (\<lambda>h. P h = None) (include_targets SystemHeaders_h) = Some h \<and>
      e = MissingHeader
            (5 + length (takeWhile (\<lambda>h. P h \<noteq> None) (include_targets SystemHeaders_h))) h)"
proof (cases "macros s ''SystemHeaders_h''")
  case None
  with assms open_headers_Inl show ?thesis
    by (simp add: include_file_fresh_targets)
next
  case (Some b)
  then have "include_file P s = Inr s" by (simp add: include_file_guarded)
  with assms show ?thesis by simp
qed

lemma include_line:
  assumes "i < 6"
  shows "SystemHeaders_h ! (4 + i) = IncludeSys (include_targets SystemHeaders_h ! i)"
proof -
  from assms have "i = 0 \<or> i = 1 \<or> i = 2 \<or> i = 3 \<or> i = 4 \<or> i = 5" by arith
  then show ?thesis
    unfolding include_targets_file
    by (auto simp: SystemHeaders_h_parsed eval_nat_numeral)
qed

lemma find_takeWhile:
  "find Q xs = Some x \<Longrightarrow>
   length (takeWhile (\<lambda>y. \<not> Q y) xs) < length xs \<and> xs ! length (takeWhile (\<lambda>y. \<not> Q y) xs) = x"
  by (induction xs) (auto split: if_splits)

section \<open>The file on the sample platforms\<close>

lemma posix_sample_keeps: "keeps_macro posix_sample m"
  by (auto simp: keeps_macro_def posix_sample_def declares_def split: if_splits)

lemma posix_sample_run:
  "include_file posix_sample start =
    Inr \<lparr>macros = [''SystemHeaders_h'' \<mapsto> []],
         emitted =
           [''int socket(int, int, int);'', ''struct sockaddr_in;'',
            ''int inet_pton(int, const char *, void *);'', ''int close(int);'',
            ''struct addrinfo;'', ''struct ifaddrs;''],
         opened =
           [''sys/socket.h'', ''netinet/in.h'', ''arpa/inet.h'', ''unistd.h'', ''netdb.h'',
            ''ifaddrs.h'']\<rparr>"
  by (simp add: include_file_fresh start_def open_header_def posix_sample_def declares_def)

lemma without_ifaddrs_run:
  "include_file without_ifaddrs start = Inl (MissingHeader 10 ''ifaddrs.h'')"
  by (simp add: include_file_fresh start_def open_header_def without_ifaddrs_def
      posix_sample_def declares_def eval_nat_numeral)

lemma start_fields: "macros start m = None" "emitted start = []" "opened start = []"
  by (simp_all add: start_def)

lemma posix_sample_neutral: "posix_sample h = Some H \<Longrightarrow> snd (H M) = M"
  by (auto simp: posix_sample_def declares_def split: if_splits)

lemma app_unit_fresh: "macros app_unit ''SystemHeaders_h'' = None"
  by (simp add: app_unit_def)

lemma libc_sample_keeps: "keeps_macro libc_sample m"
  by (auto simp: keeps_macro_def libc_sample_def guarded_def netinet_in_def
      split: if_splits option.splits)

lemma libc_sample_untouched:
  "libc_sample h = Some H \<Longrightarrow> snd (H M) ''APP_VERSION'' = M ''APP_VERSION''"
  by (auto simp: libc_sample_def guarded_def netinet_in_def split: if_splits option.splits)

lemma libc_sample_present:
  "\<forall>h \<in> set (include_targets SystemHeaders_h). libc_sample h \<noteq> None"
  by (simp add: include_targets_file libc_sample_def)

lemma libc_sample_find:
  "find (\<lambda>h. libc_sample h = None)
     [''sys/socket.h'', ''netinet/in.h'', ''arpa/inet.h'', ''unistd.h'', ''netdb.h'', ''ifaddrs.h'']
   = None"
  by (simp add: libc_sample_def)

lemma libc_sample_texts:
  "header_texts libc_sample
     [''sys/socket.h'', ''netinet/in.h'', ''arpa/inet.h'', ''unistd.h'', ''netdb.h'', ''ifaddrs.h'']
     ((macros app_unit)(''SystemHeaders_h'' \<mapsto> [])) =
   [''struct sockaddr;'', ''struct sockaddr_in;'', ''int inet_pton(int, const char *, void *);'',
    ''int close(int);'', ''struct addrinfo;'', ''struct ifaddrs;'']"
  by (simp add: libc_sample_def guarded_def netinet_in_def app_unit_def)

lemma libc_sample_succeeds:
  "include_file libc_sample app_unit = Inr (projr (include_file libc_sample app_unit))"
  unfolding include_file_behaviour include_targets_file
  by (simp only: app_unit_fresh libc_sample_find simp_thms if_False option.case sum.sel)

lemma without_ifaddrs_find:
  "find (\<lambda>h. without_ifaddrs h = None)
     [''sys/socket.h'', ''netinet/in.h'', ''arpa/inet.h'', ''unistd.h'', ''netdb.h'', ''ifaddrs.h'']
   = Some ''ifaddrs.h''"
  by (simp add: without_ifaddrs_def posix_sample_def)

lemma six_present_iff:
  "(\<forall>h \<in> set (include_targets SystemHeaders_h). P h \<noteq> None) \<longleftrightarrow>
   posix_compatible P \<and> P ''ifaddrs.h'' \<noteq> None"
  by (auto simp: include_targets_file posix_compatible_def posix_headers_def find_None_iff)

lemma libc_sample_posix: "posix_compatible libc_sample"
  by (simp add: posix_compatible_def posix_headers_def libc_sample_def)

lemma libc_sample_ifaddrs: "libc_sample ''ifaddrs.h'' \<noteq> None"
  by (simp add: libc_sample_def)

lemma without_ifaddrs_posix: "posix_compatible without_ifaddrs"
  by (simp add: posix_compatible_def posix_headers_def without_ifaddrs_def posix_sample_def)

lemma libc_sample_socket: "libc_sample ''sys/socket.h'' = Some (guarded ''_SYS_SOCKET_H'' [''struct sockaddr;''])"
  by (simp add: libc_sample_def)

lemma libc_sample_in: "libc_sample ''netinet/in.h'' = Some netinet_in"
  by (simp add: libc_sample_def)

lemma libc_sample_first_two:
  "fst (guarded ''_SYS_SOCKET_H'' [''struct sockaddr;'']
         ((macros app_unit)(''SystemHeaders_h'' \<mapsto> []))) = [''struct sockaddr;'']"
  "fst (netinet_in (snd (guarded ''_SYS_SOCKET_H'' [''struct sockaddr;'']
         ((macros app_unit)(''SystemHeaders_h'' \<mapsto> []))))) = [''struct sockaddr_in;'']"
  "fst (netinet_in ((macros app_unit)(''SystemHeaders_h'' \<mapsto> []))) =
     [''struct sockaddr;'', ''struct sockaddr_in;'']"
  by (simp_all add: guarded_def netinet_in_def app_unit_def)

text \<open>
  The line at which an inclusion fails: the directive of the first header of the file
  that the platform lacks.
\<close>

lemma missing_line:
  assumes "find (\<lambda>h. P h = None) (include_targets SystemHeaders_h) = Some h"
  defines "k \<equiv> 5 + length (takeWhile (\<lambda>h. P h \<noteq> None) (include_targets SystemHeaders_h))"
  shows "P h = None \<and> 5 \<le> k \<and> k \<le> 10 \<and> SystemHeaders_h ! (k - 1) = IncludeSys h"
proof -
  let ?i = "length (takeWhile (\<lambda>h. P h \<noteq> None) (include_targets SystemHeaders_h))"
  from find_takeWhile [OF assms(1)]
  have i: "?i < length (include_targets SystemHeaders_h)"
    and h: "include_targets SystemHeaders_h ! ?i = h"
    by simp_all
  have "length (include_targets SystemHeaders_h) = 6"
    by (simp add: include_targets_file)
  with i have i6: "?i < 6" by simp
  from include_line [OF i6] h have "SystemHeaders_h ! (4 + ?i) = IncludeSys h" by simp
  moreover from assms(1) have "P h = None" by (auto simp: find_Some_iff)
  ultimately show ?thesis using i6 by (simp add: k_def)
qed

section \<open>The claims\<close>

text \<open>
  \<^bold>\<open>C1.\<close> The include directives of the file name exactly six platform headers:
  \<^verbatim>\<open>sys/socket.h\<close>, \<^verbatim>\<open>netinet/in.h\<close>, \<^verbatim>\<open>arpa/inet.h\<close>, \<^verbatim>\<open>unistd.h\<close>,
  \<^verbatim>\<open>netdb.h\<close> and \<^verbatim>\<open>ifaddrs.h\<close>. The file depends on no other platform header: two
  platforms that agree on these six give the same result, whatever else they provide or
  lack. An inclusion that the guard lets through and that succeeds has found all six on
  the platform, and what it makes available is what exactly these six give: the text of
  the translation unit is the text before followed by the text of the six headers, and
  the macros are what the six headers make of the macros before and the guard.
\<close>

theorem platform_headers_are_the_six:
  "set (include_targets SystemHeaders_h) =
     {''sys/socket.h'', ''netinet/in.h'', ''arpa/inet.h'', ''unistd.h'', ''netdb.h'', ''ifaddrs.h''}
   \<and> ((\<forall>h \<in> set (include_targets SystemHeaders_h). P h = Q h) \<longrightarrow>
        include_file P s = include_file Q s)
   \<and> (macros s ''SystemHeaders_h'' = None \<longrightarrow> include_file P s = Inr s' \<longrightarrow>
        emitted s' = emitted s @
          header_texts P
            [''sys/socket.h'', ''netinet/in.h'', ''arpa/inet.h'', ''unistd.h'', ''netdb.h'',
             ''ifaddrs.h'']
            ((macros s)(''SystemHeaders_h'' \<mapsto> []))
        \<and> macros s' =
          header_macros P
            [''sys/socket.h'', ''netinet/in.h'', ''arpa/inet.h'', ''unistd.h'', ''netdb.h'',
             ''ifaddrs.h'']
            ((macros s)(''SystemHeaders_h'' \<mapsto> []))
        \<and> opened s' = opened s @
            [''sys/socket.h'', ''netinet/in.h'', ''arpa/inet.h'', ''unistd.h'', ''netdb.h'',
             ''ifaddrs.h'']
        \<and> (\<forall>h \<in> set (include_targets SystemHeaders_h). P h \<noteq> None))"
proof (intro conjI impI)
  show "set (include_targets SystemHeaders_h) =
     {''sys/socket.h'', ''netinet/in.h'', ''arpa/inet.h'', ''unistd.h'', ''netdb.h'', ''ifaddrs.h''}"
    by (simp add: include_targets_file)
next
  assume agree: "\<forall>h \<in> set (include_targets SystemHeaders_h). P h = Q h"
  show "include_file P s = include_file Q s"
  proof (cases "macros s ''SystemHeaders_h''")
    case None
    then show ?thesis
      by (simp add: include_file_fresh_targets open_headers_cong [OF agree])
  next
    case (Some b)
    then show ?thesis by (simp add: include_file_guarded)
  qed
next
  assume fresh: "macros s ''SystemHeaders_h'' = None" and run: "include_file P s = Inr s'"
  note state = include_file_Inr(2) [OF fresh run, unfolded include_targets_file]
  show "emitted s' = emitted s @
      header_texts P
        [''sys/socket.h'', ''netinet/in.h'', ''arpa/inet.h'', ''unistd.h'', ''netdb.h'', ''ifaddrs.h'']
        ((macros s)(''SystemHeaders_h'' \<mapsto> []))"
    by (subst state) simp
  show "macros s' =
      header_macros P
        [''sys/socket.h'', ''netinet/in.h'', ''arpa/inet.h'', ''unistd.h'', ''netdb.h'', ''ifaddrs.h'']
        ((macros s)(''SystemHeaders_h'' \<mapsto> []))"
    by (subst state) simp
  show "opened s' = opened s @
      [''sys/socket.h'', ''netinet/in.h'', ''arpa/inet.h'', ''unistd.h'', ''netdb.h'', ''ifaddrs.h'']"
    by (subst state) simp
  from include_file_Inr(1) [OF fresh run]
  show "\<forall>h \<in> set (include_targets SystemHeaders_h). P h \<noteq> None"
    by (simp add: find_None_iff)
qed

theorem platform_headers_are_the_six_witness:
  "include_file libc_sample app_unit =
     include_file (libc_sample(''stdio.h'' \<mapsto> guarded ''_STDIO_H'' [''int puts(const char *);'']))
       app_unit
   \<and> emitted (projr (include_file libc_sample app_unit)) = emitted app_unit @
       [''struct sockaddr;'', ''struct sockaddr_in;'', ''int inet_pton(int, const char *, void *);'',
        ''int close(int);'', ''struct addrinfo;'', ''struct ifaddrs;'']
   \<and> macros (projr (include_file libc_sample app_unit)) =
       header_macros libc_sample
         [''sys/socket.h'', ''netinet/in.h'', ''arpa/inet.h'', ''unistd.h'', ''netdb.h'', ''ifaddrs.h'']
         ((macros app_unit)(''SystemHeaders_h'' \<mapsto> []))"
proof -
  let ?Q = "libc_sample(''stdio.h'' \<mapsto> guarded ''_STDIO_H'' [''int puts(const char *);''])"
  have agree: "\<forall>h \<in> set (include_targets SystemHeaders_h). libc_sample h = ?Q h"
    by (simp add: include_targets_file)
  note six = platform_headers_are_the_six
    [of libc_sample ?Q app_unit "projr (include_file libc_sample app_unit)"]
  note made = six [THEN conjunct2, THEN conjunct2, THEN mp, THEN mp,
    OF app_unit_fresh libc_sample_succeeds]
  have "include_file libc_sample app_unit = include_file ?Q app_unit"
    by (rule six [THEN conjunct2, THEN conjunct1, THEN mp, OF agree])
  moreover from made [THEN conjunct1]
  have "emitted (projr (include_file libc_sample app_unit)) = emitted app_unit @
       [''struct sockaddr;'', ''struct sockaddr_in;'', ''int inet_pton(int, const char *, void *);'',
        ''int close(int);'', ''struct addrinfo;'', ''struct ifaddrs;'']"
    by (simp only: libc_sample_texts)
  moreover note made [THEN conjunct2, THEN conjunct1]
  ultimately show ?thesis by (intro conjI) assumption+
qed

text \<open>
  \<^bold>\<open>C2\<close> (as amended). The file has exactly six include directives, not nine, and all
  that an inclusion does is this. With the guard defined it does nothing. With the guard
  not defined it defines the guard and opens the six headers in order: it ends with a
  missing header, at the line of the directive, at the first of the six that the
  platform lacks, and otherwise with the state before, the guard, the text and the
  macros of the six headers, and nothing else.
\<close>

theorem six_include_directives:
  "length (include_targets SystemHeaders_h) = 6
   \<and> include_file P s =
      (if macros s ''SystemHeaders_h'' \<noteq> None then Inr s
       else
         (case find (\<lambda>h. P h = None)
                 [''sys/socket.h'', ''netinet/in.h'', ''arpa/inet.h'', ''unistd.h'', ''netdb.h'',
                  ''ifaddrs.h''] of
            Some h \<Rightarrow>
              Inl (MissingHeader
                    (5 + length (takeWhile (\<lambda>h. P h \<noteq> None)
                       [''sys/socket.h'', ''netinet/in.h'', ''arpa/inet.h'', ''unistd.h'',
                        ''netdb.h'', ''ifaddrs.h''])) h)
          | None \<Rightarrow>
              Inr \<lparr>macros =
                     header_macros P
                       [''sys/socket.h'', ''netinet/in.h'', ''arpa/inet.h'', ''unistd.h'',
                        ''netdb.h'', ''ifaddrs.h'']
                       ((macros s)(''SystemHeaders_h'' \<mapsto> [])),
                   emitted =
                     emitted s @
                     header_texts P
                       [''sys/socket.h'', ''netinet/in.h'', ''arpa/inet.h'', ''unistd.h'',
                        ''netdb.h'', ''ifaddrs.h'']
                       ((macros s)(''SystemHeaders_h'' \<mapsto> [])),
                   opened =
                     opened s @
                       [''sys/socket.h'', ''netinet/in.h'', ''arpa/inet.h'', ''unistd.h'',
                        ''netdb.h'', ''ifaddrs.h'']\<rparr>))"
proof
  show "length (include_targets SystemHeaders_h) = 6"
    by (simp add: include_targets_file)
next
  show "include_file P s =
      (if macros s ''SystemHeaders_h'' \<noteq> None then Inr s
       else
         (case find (\<lambda>h. P h = None)
                 [''sys/socket.h'', ''netinet/in.h'', ''arpa/inet.h'', ''unistd.h'', ''netdb.h'',
                  ''ifaddrs.h''] of
            Some h \<Rightarrow>
              Inl (MissingHeader
                    (5 + length (takeWhile (\<lambda>h. P h \<noteq> None)
                       [''sys/socket.h'', ''netinet/in.h'', ''arpa/inet.h'', ''unistd.h'',
                        ''netdb.h'', ''ifaddrs.h''])) h)
          | None \<Rightarrow>
              Inr \<lparr>macros =
                     header_macros P
                       [''sys/socket.h'', ''netinet/in.h'', ''arpa/inet.h'', ''unistd.h'',
                        ''netdb.h'', ''ifaddrs.h'']
                       ((macros s)(''SystemHeaders_h'' \<mapsto> [])),
                   emitted =
                     emitted s @
                     header_texts P
                       [''sys/socket.h'', ''netinet/in.h'', ''arpa/inet.h'', ''unistd.h'',
                        ''netdb.h'', ''ifaddrs.h'']
                       ((macros s)(''SystemHeaders_h'' \<mapsto> [])),
                   opened =
                     opened s @
                       [''sys/socket.h'', ''netinet/in.h'', ''arpa/inet.h'', ''unistd.h'',
                        ''netdb.h'', ''ifaddrs.h'']\<rparr>))"
    by (rule include_file_behaviour [unfolded include_targets_file])
qed

theorem six_include_directives_witness:
  "include_file libc_sample app_unit =
     Inr \<lparr>macros =
            header_macros libc_sample
              [''sys/socket.h'', ''netinet/in.h'', ''arpa/inet.h'', ''unistd.h'', ''netdb.h'',
               ''ifaddrs.h'']
              ((macros app_unit)(''SystemHeaders_h'' \<mapsto> [])),
          emitted =
            emitted app_unit @
              [''struct sockaddr;'', ''struct sockaddr_in;'',
               ''int inet_pton(int, const char *, void *);'', ''int close(int);'',
               ''struct addrinfo;'', ''struct ifaddrs;''],
          opened =
            opened app_unit @
              [''sys/socket.h'', ''netinet/in.h'', ''arpa/inet.h'', ''unistd.h'', ''netdb.h'',
               ''ifaddrs.h'']\<rparr>
   \<and> include_file without_ifaddrs start = Inl (MissingHeader 10 ''ifaddrs.h'')
   \<and> include_file posix_sample (projr (include_file posix_sample start)) =
       Inr (projr (include_file posix_sample start))"
proof -
  from six_include_directives [of libc_sample app_unit, THEN conjunct2]
  have "include_file libc_sample app_unit =
     Inr \<lparr>macros =
            header_macros libc_sample
              [''sys/socket.h'', ''netinet/in.h'', ''arpa/inet.h'', ''unistd.h'', ''netdb.h'',
               ''ifaddrs.h'']
              ((macros app_unit)(''SystemHeaders_h'' \<mapsto> [])),
          emitted =
            emitted app_unit @
              [''struct sockaddr;'', ''struct sockaddr_in;'',
               ''int inet_pton(int, const char *, void *);'', ''int close(int);'',
               ''struct addrinfo;'', ''struct ifaddrs;''],
          opened =
            opened app_unit @
              [''sys/socket.h'', ''netinet/in.h'', ''arpa/inet.h'', ''unistd.h'', ''netdb.h'',
               ''ifaddrs.h'']\<rparr>"
    by (simp only: app_unit_fresh libc_sample_find libc_sample_texts simp_thms if_False
        option.case)
  moreover from six_include_directives [of without_ifaddrs start, THEN conjunct2]
  have "include_file without_ifaddrs start = Inl (MissingHeader 10 ''ifaddrs.h'')"
    by (simp add: start_fields without_ifaddrs_find without_ifaddrs_def posix_sample_def)
  moreover from six_include_directives
    [of posix_sample "projr (include_file posix_sample start)", THEN conjunct2]
  have "include_file posix_sample (projr (include_file posix_sample start)) =
       Inr (projr (include_file posix_sample start))"
    by (simp add: posix_sample_run)
  ultimately show ?thesis by (intro conjI) assumption+
qed

text \<open>
  \<^bold>\<open>C2\<close> as stated, with nine include directives, fails: the file has six, and the
  run on the sample platform from the start of a translation unit opens six headers.
\<close>

theorem nine_include_directives_counterexample:
  "length (include_targets SystemHeaders_h) \<noteq> 9
   \<and> \<not> isl (include_file posix_sample start)
   \<and> length (opened (projr (include_file posix_sample start))) \<noteq> 9"
  by (simp add: include_targets_file posix_sample_run)

text \<open>
  \<^bold>\<open>C3.\<close> On a platform whose headers keep the guard macro: after an inclusion that
  succeeds the guard is defined, and including the file again gives back the very same
  state, so the second inclusion contributes nothing and duplicates nothing. In every
  state with the guard defined, directly after the first inclusion or later in the
  translation unit, an inclusion changes nothing. Two inclusions in a row give the result
  of one, and no inclusion ever fails with the redefinition of a macro.
\<close>

theorem second_inclusion_contributes_nothing:
  assumes "keeps_macro P ''SystemHeaders_h''"
  shows "(include_file P s = Inr s' \<longrightarrow>
            macros s' ''SystemHeaders_h'' \<noteq> None \<and> include_file P s' = Inr s')
    \<and> (macros s2 ''SystemHeaders_h'' \<noteq> None \<longrightarrow> include_file P s2 = Inr s2)
    \<and> include_times P 2 s = include_file P s
    \<and> include_file P s \<noteq> Inl (Redefinition k m)"
proof (intro conjI impI)
  assume run: "include_file P s = Inr s'"
  from include_file_keeps_guard [OF assms run]
  show "macros s' ''SystemHeaders_h'' \<noteq> None" .
  then show "include_file P s' = Inr s'" by (rule include_file_guarded)
next
  assume "macros s2 ''SystemHeaders_h'' \<noteq> None"
  then show "include_file P s2 = Inr s2" by (rule include_file_guarded)
next
  show "include_times P 2 s = include_file P s"
    unfolding numeral_2_eq_2 by (rule include_times_Suc [OF assms])
next
  show "include_file P s \<noteq> Inl (Redefinition k m)"
  proof
    assume "include_file P s = Inl (Redefinition k m)"
    from include_file_Inl [OF this] show False by simp
  qed
qed

theorem second_inclusion_contributes_nothing_witness:
  "macros (projr (include_file posix_sample start)) ''SystemHeaders_h'' \<noteq> None
   \<and> include_file posix_sample (projr (include_file posix_sample start)) =
       Inr (projr (include_file posix_sample start))
   \<and> include_times posix_sample 2 start = include_file posix_sample start
   \<and> include_file posix_sample start \<noteq> Inl (Redefinition 2 ''SystemHeaders_h'')"
proof -
  let ?s1 = "projr (include_file posix_sample start)"
  have run: "include_file posix_sample start = Inr ?s1"
    by (simp add: posix_sample_run)
  note twice = second_inclusion_contributes_nothing
    [OF posix_sample_keeps, of start ?s1 ?s1 2 "''SystemHeaders_h''"]
  from twice [THEN conjunct1, THEN mp, OF run]
  have guard: "macros ?s1 ''SystemHeaders_h'' \<noteq> None"
    by (rule conjunct1)
  have again: "include_file posix_sample ?s1 = Inr ?s1"
    by (rule twice [THEN conjunct2, THEN conjunct1, THEN mp, OF guard])
  have two: "include_times posix_sample 2 start = include_file posix_sample start"
    by (rule twice [THEN conjunct2, THEN conjunct2, THEN conjunct1])
  have clean: "include_file posix_sample start \<noteq> Inl (Redefinition 2 ''SystemHeaders_h'')"
    by (rule twice [THEN conjunct2, THEN conjunct2, THEN conjunct2])
  from guard again two clean show ?thesis
    by (intro conjI) assumption+
qed

text \<open>
  \<^bold>\<open>C4.\<close> When an inclusion fails, the error is a missing header, raised at one of the
  lines 5 to 10, and that line is the include directive of a header the platform lacks.
  When the guard lets the inclusion through, it fails at the directive of the first of
  the six headers that the platform lacks. No other error of the preprocessor can occur,
  and the file hands no text of its own to the compiler, so that nothing of it runs.
\<close>

theorem only_failure_is_a_missing_header:
  "(include_file P s = Inl e \<longrightarrow>
      (\<exists>k h. e = MissingHeader k h \<and> P h = None \<and> 5 \<le> k \<and> k \<le> 10 \<and>
         SystemHeaders_h ! (k - 1) = IncludeSys h))
   \<and> (macros s ''SystemHeaders_h'' = None \<longrightarrow>
       find (\<lambda>h. P h = None) (include_targets SystemHeaders_h) = Some h \<longrightarrow>
      (\<exists>k. include_file P s = Inl (MissingHeader k h) \<and>
         SystemHeaders_h ! (k - 1) = IncludeSys h))
   \<and> text_lines SystemHeaders_h = []"
proof (intro conjI impI)
  assume "include_file P s = Inl e"
  from include_file_Inl [OF this] obtain h
    where f: "find (\<lambda>h. P h = None) (include_targets SystemHeaders_h) = Some h"
      and e: "e = MissingHeader
            (5 + length (takeWhile (\<lambda>h. P h \<noteq> None) (include_targets SystemHeaders_h))) h"
    by blast
  from missing_line [OF f] e
  show "\<exists>k h. e = MissingHeader k h \<and> P h = None \<and> 5 \<le> k \<and> k \<le> 10 \<and>
         SystemHeaders_h ! (k - 1) = IncludeSys h"
    by blast
next
  assume fresh: "macros s ''SystemHeaders_h'' = None"
    and f: "find (\<lambda>h. P h = None) (include_targets SystemHeaders_h) = Some h"
  from fresh open_headers_find_Some [OF f]
  have "include_file P s = Inl (MissingHeader
      (5 + length (takeWhile (\<lambda>h. P h \<noteq> None) (include_targets SystemHeaders_h))) h)"
    by (simp add: include_file_fresh_targets)
  with missing_line [OF f]
  show "\<exists>k. include_file P s = Inl (MissingHeader k h) \<and>
         SystemHeaders_h ! (k - 1) = IncludeSys h"
    by blast
next
  show "text_lines SystemHeaders_h = []" by (rule text_lines_file)
qed

theorem only_failure_is_a_missing_header_witness:
  "include_file without_ifaddrs start = Inl (MissingHeader 10 ''ifaddrs.h'')
   \<and> without_ifaddrs ''ifaddrs.h'' = None
   \<and> SystemHeaders_h ! 9 = IncludeSys ''ifaddrs.h''
   \<and> (\<exists>k. include_file without_ifaddrs start = Inl (MissingHeader k ''ifaddrs.h'') \<and>
         SystemHeaders_h ! (k - 1) = IncludeSys ''ifaddrs.h'')"
proof -
  note only = only_failure_is_a_missing_header
    [of without_ifaddrs start "MissingHeader 10 ''ifaddrs.h''" "''ifaddrs.h''"]
  have run: "include_file without_ifaddrs start = Inl (MissingHeader 10 ''ifaddrs.h'')"
    by (rule without_ifaddrs_run)
  have fresh: "macros start ''SystemHeaders_h'' = None"
    by (rule start_fields)
  have first: "find (\<lambda>h. without_ifaddrs h = None) (include_targets SystemHeaders_h) =
      Some ''ifaddrs.h''"
    by (simp add: include_targets_file without_ifaddrs_def posix_sample_def)
  from only [THEN conjunct1, THEN mp, OF run]
  have "without_ifaddrs ''ifaddrs.h'' = None \<and> SystemHeaders_h ! 9 = IncludeSys ''ifaddrs.h''"
    by auto
  with run only [THEN conjunct2, THEN conjunct1, THEN mp, THEN mp, OF fresh first]
  show ?thesis by simp
qed

text \<open>
  \<^bold>\<open>C5.\<close> Every line of the file that is not blank and not a comment is a preprocessor
  directive. The directives are the conditional on the guard, the definition of the guard
  with an empty replacement, the six includes and the end of the conditional: none of
  them declares a function, a type or a variable, and no line of the file is program
  text.
\<close>

theorem file_is_directives_only:
  "filter (\<lambda>l. \<not> is_blank_or_comment l \<and> \<not> is_directive l) SystemHeaders_h_text = []
   \<and> map parse_line (filter is_directive SystemHeaders_h_text) =
       [Ifndef ''SystemHeaders_h'',
        Define ''SystemHeaders_h'' [],
        IncludeSys ''sys/socket.h'',
        IncludeSys ''netinet/in.h'',
        IncludeSys ''arpa/inet.h'',
        IncludeSys ''unistd.h'',
        IncludeSys ''netdb.h'',
        IncludeSys ''ifaddrs.h'',
        Endif]
   \<and> text_lines SystemHeaders_h = []"
proof (intro conjI)
  show "filter (\<lambda>l. \<not> is_blank_or_comment l \<and> \<not> is_directive l) SystemHeaders_h_text = []"
    by (simp add: SystemHeaders_h_text_def is_blank_or_comment_def is_directive_def
        strip_comments_def trim_def is_space_def)
next
  show "map parse_line (filter is_directive SystemHeaders_h_text) =
       [Ifndef ''SystemHeaders_h'',
        Define ''SystemHeaders_h'' [],
        IncludeSys ''sys/socket.h'',
        IncludeSys ''netinet/in.h'',
        IncludeSys ''arpa/inet.h'',
        IncludeSys ''unistd.h'',
        IncludeSys ''netdb.h'',
        IncludeSys ''ifaddrs.h'',
        Endif]"
    by (simp add: SystemHeaders_h_text_def is_directive_def parse_line_def parse_directive_def
        strip_comments_def trim_def is_space_def is_ident_def is_ident_char_def Let_def)
next
  show "text_lines SystemHeaders_h = []" by (rule text_lines_file)
qed

text \<open>
  \<^bold>\<open>C6\<close> (as amended). An inclusion that succeeds keeps all the text emitted before
  it, unchanged and in place, and adds to it the text of the platform's six headers when
  the guard lets the inclusion through, and nothing otherwise: the file has no text of its
  own, so that it creates, changes and removes nothing of the program. The macros
  afterwards are what the six headers make of the macros before with the guard
  \<^verbatim>\<open>SystemHeaders_h\<close> defined: on a platform that keeps the guard it ends defined,
  and a macro other than the guard that no header of the platform touches is as it was
  before. The guard is the one effect of the file besides what the platform's headers
  declare and define.
\<close>

theorem inclusion_changes_no_data:
  assumes "include_file P s = Inr s'"
  shows "emitted s' = emitted s @
      (if macros s ''SystemHeaders_h'' = None
       then header_texts P (include_targets SystemHeaders_h)
              ((macros s)(''SystemHeaders_h'' \<mapsto> []))
       else [])
    \<and> macros s' =
      (if macros s ''SystemHeaders_h'' = None
       then header_macros P (include_targets SystemHeaders_h)
              ((macros s)(''SystemHeaders_h'' \<mapsto> []))
       else macros s)
    \<and> (keeps_macro P ''SystemHeaders_h'' \<longrightarrow> macros s' ''SystemHeaders_h'' \<noteq> None)
    \<and> ((\<forall>h H M. P h = Some H \<longrightarrow> snd (H M) m = M m) \<longrightarrow> m \<noteq> ''SystemHeaders_h'' \<longrightarrow>
          macros s' m = macros s m)
    \<and> text_lines SystemHeaders_h = []"
proof (cases "macros s ''SystemHeaders_h''")
  case None
  let ?M0 = "(macros s)(''SystemHeaders_h'' \<mapsto> [])"
  note state = include_file_Inr(2) [OF None assms]
  have e: "emitted s' = emitted s @ header_texts P (include_targets SystemHeaders_h) ?M0"
    by (subst state) simp
  have m: "macros s' = header_macros P (include_targets SystemHeaders_h) ?M0"
    by (subst state) simp
  have g: "macros s' ''SystemHeaders_h'' \<noteq> None" if "keeps_macro P ''SystemHeaders_h''"
    unfolding m by (rule header_macros_keeps [OF that]) simp
  have u: "macros s' m = macros s m"
    if "\<forall>h H M. P h = Some H \<longrightarrow> snd (H M) m = M m" and "m \<noteq> ''SystemHeaders_h''"
    unfolding m using header_macros_untouched [OF that(1), of "include_targets SystemHeaders_h" ?M0]
      that(2) by simp
  from None e m g u show ?thesis by (simp add: text_lines_file)
next
  case (Some b)
  then have "include_file P s = Inr s" by (simp add: include_file_guarded)
  with assms have "s' = s" by simp
  with Some show ?thesis by (simp add: text_lines_file)
qed

theorem inclusion_changes_no_data_witness:
  "emitted (projr (include_file libc_sample app_unit)) = emitted app_unit @
     [''struct sockaddr;'', ''struct sockaddr_in;'', ''int inet_pton(int, const char *, void *);'',
      ''int close(int);'', ''struct addrinfo;'', ''struct ifaddrs;'']
   \<and> macros (projr (include_file libc_sample app_unit)) =
       header_macros libc_sample (include_targets SystemHeaders_h)
         ((macros app_unit)(''SystemHeaders_h'' \<mapsto> []))
   \<and> macros (projr (include_file libc_sample app_unit)) ''SystemHeaders_h'' \<noteq> None
   \<and> macros (projr (include_file libc_sample app_unit)) ''APP_VERSION'' =
       macros app_unit ''APP_VERSION''"
proof -
  have untouched: "\<forall>h H M. libc_sample h = Some H \<longrightarrow> snd (H M) ''APP_VERSION'' = M ''APP_VERSION''"
    by (simp add: libc_sample_untouched)
  have other: "''APP_VERSION'' \<noteq> ''SystemHeaders_h''"
    by simp
  note frame = inclusion_changes_no_data [OF libc_sample_succeeds, of "''APP_VERSION''"]
  from frame [THEN conjunct1]
  have "emitted (projr (include_file libc_sample app_unit)) = emitted app_unit @
     [''struct sockaddr;'', ''struct sockaddr_in;'', ''int inet_pton(int, const char *, void *);'',
      ''int close(int);'', ''struct addrinfo;'', ''struct ifaddrs;'']"
    by (simp only: app_unit_fresh include_targets_file libc_sample_texts simp_thms if_True)
  moreover from frame [THEN conjunct2, THEN conjunct1]
  have "macros (projr (include_file libc_sample app_unit)) =
       header_macros libc_sample (include_targets SystemHeaders_h)
         ((macros app_unit)(''SystemHeaders_h'' \<mapsto> []))"
    by (simp only: app_unit_fresh simp_thms if_True)
  moreover
  have "macros (projr (include_file libc_sample app_unit)) ''SystemHeaders_h'' \<noteq> None"
    by (rule frame [THEN conjunct2, THEN conjunct2, THEN conjunct1, THEN mp,
          OF libc_sample_keeps])
  moreover
  have "macros (projr (include_file libc_sample app_unit)) ''APP_VERSION'' =
       macros app_unit ''APP_VERSION''"
    by (rule frame [THEN conjunct2, THEN conjunct2, THEN conjunct2, THEN conjunct1,
          THEN mp, THEN mp, OF untouched other])
  ultimately show ?thesis by (intro conjI) assumption+
qed

text \<open>
  \<^bold>\<open>C6\<close> as stated gives the visibility of external declarations as the only
  observable effect. The inclusion has one more: from the start of a translation unit,
  where \<^verbatim>\<open>SystemHeaders_h\<close> is not defined, the inclusion on the sample platform ends
  with \<^verbatim>\<open>SystemHeaders_h\<close> defined, with empty replacement text.
\<close>

theorem only_observable_effect_counterexample:
  "macros start ''SystemHeaders_h'' = None
   \<and> \<not> isl (include_file posix_sample start)
   \<and> macros (projr (include_file posix_sample start)) ''SystemHeaders_h'' = Some []"
  by (simp add: posix_sample_run start_fields)

text \<open>
  \<^bold>\<open>C7\<close> (as amended). An inclusion that the guard lets through succeeds on the
  platforms that provide the six headers of the file, and on no other. These are the
  POSIX-compatible platforms that provide \<^verbatim>\<open>ifaddrs.h\<close> as well. On them the
  inclusion succeeds in every state of the translation unit, and when the guard lets it
  through it ends with the text and the macros of the six headers added to the
  translation unit, so that what they declare is there to use.
\<close>

theorem six_headers_inclusion_succeeds:
  "(macros s ''SystemHeaders_h'' = None \<longrightarrow>
      ((\<exists>s'. include_file P s = Inr s') \<longleftrightarrow>
       (\<forall>h \<in> set (include_targets SystemHeaders_h). P h \<noteq> None)))
   \<and> ((\<forall>h \<in> set (include_targets SystemHeaders_h). P h \<noteq> None) \<longrightarrow>
        (\<exists>s'. include_file P s = Inr s'))
   \<and> (posix_compatible P \<longrightarrow> P ''ifaddrs.h'' \<noteq> None \<longrightarrow> (\<exists>s'. include_file P s = Inr s'))
   \<and> ((\<forall>h \<in> set (include_targets SystemHeaders_h). P h \<noteq> None) \<longrightarrow>
        macros s ''SystemHeaders_h'' = None \<longrightarrow>
        include_file P s =
          Inr \<lparr>macros =
                 header_macros P (include_targets SystemHeaders_h)
                   ((macros s)(''SystemHeaders_h'' \<mapsto> [])),
               emitted =
                 emitted s @
                 header_texts P (include_targets SystemHeaders_h)
                   ((macros s)(''SystemHeaders_h'' \<mapsto> [])),
               opened = opened s @ include_targets SystemHeaders_h\<rparr>)"
proof -
  have present: "find (\<lambda>h. P h = None) (include_targets SystemHeaders_h) = None"
    if "\<forall>h \<in> set (include_targets SystemHeaders_h). P h \<noteq> None"
    using that by (simp add: find_None_iff)
  have absent: "\<exists>h. find (\<lambda>h. P h = None) (include_targets SystemHeaders_h) = Some h"
    if "\<not> (\<forall>h \<in> set (include_targets SystemHeaders_h). P h \<noteq> None)"
    using that by (cases "find (\<lambda>h. P h = None) (include_targets SystemHeaders_h)")
      (auto simp: find_None_iff)
  have a: "(\<exists>s'. include_file P s = Inr s') \<longleftrightarrow>
       (\<forall>h \<in> set (include_targets SystemHeaders_h). P h \<noteq> None)"
    if fresh: "macros s ''SystemHeaders_h'' = None"
  proof (cases "\<forall>h \<in> set (include_targets SystemHeaders_h). P h \<noteq> None")
    case True
    with present [OF True] fresh show ?thesis
      by (simp add: include_file_behaviour)
  next
    case False
    from absent [OF False] obtain h
      where "find (\<lambda>h. P h = None) (include_targets SystemHeaders_h) = Some h" ..
    with False fresh show ?thesis
      by (simp add: include_file_behaviour)
  qed
  have b: "\<exists>s'. include_file P s = Inr s'"
    if "\<forall>h \<in> set (include_targets SystemHeaders_h). P h \<noteq> None"
    using present [OF that] by (simp add: include_file_behaviour)
  have c: "include_file P s =
          Inr \<lparr>macros =
                 header_macros P (include_targets SystemHeaders_h)
                   ((macros s)(''SystemHeaders_h'' \<mapsto> [])),
               emitted =
                 emitted s @
                 header_texts P (include_targets SystemHeaders_h)
                   ((macros s)(''SystemHeaders_h'' \<mapsto> [])),
               opened = opened s @ include_targets SystemHeaders_h\<rparr>"
    if "\<forall>h \<in> set (include_targets SystemHeaders_h). P h \<noteq> None"
      and "macros s ''SystemHeaders_h'' = None"
    using present [OF that(1)] that(2) by (simp add: include_file_behaviour)
  have d: "\<exists>s'. include_file P s = Inr s'"
    if "posix_compatible P" and "P ''ifaddrs.h'' \<noteq> None"
  proof -
    from that have "posix_compatible P \<and> P ''ifaddrs.h'' \<noteq> None"
      by (rule conjI)
    then have "\<forall>h \<in> set (include_targets SystemHeaders_h). P h \<noteq> None"
      by (rule six_present_iff [THEN iffD2])
    then show ?thesis by (rule b)
  qed
  from a b c d show ?thesis by (intro conjI impI) assumption+
qed

theorem six_headers_inclusion_succeeds_witness:
  "(\<exists>s'. include_file libc_sample app_unit = Inr s')
   \<and> include_file libc_sample app_unit =
       Inr \<lparr>macros =
              header_macros libc_sample (include_targets SystemHeaders_h)
                ((macros app_unit)(''SystemHeaders_h'' \<mapsto> [])),
            emitted =
              emitted app_unit @
              header_texts libc_sample (include_targets SystemHeaders_h)
                ((macros app_unit)(''SystemHeaders_h'' \<mapsto> [])),
            opened = opened app_unit @ include_targets SystemHeaders_h\<rparr>
   \<and> \<not> (\<exists>s'. include_file without_ifaddrs start = Inr s')"
proof -
  note ok = six_headers_inclusion_succeeds [of app_unit libc_sample]
  note bad = six_headers_inclusion_succeeds [of start without_ifaddrs]
  have fresh: "macros start ''SystemHeaders_h'' = None"
    by (rule start_fields)
  have lacking: "\<not> (\<forall>h \<in> set (include_targets SystemHeaders_h). without_ifaddrs h \<noteq> None)"
    by (simp add: include_targets_file without_ifaddrs_def)
  have "\<exists>s'. include_file libc_sample app_unit = Inr s'"
    by (rule ok [THEN conjunct2, THEN conjunct2, THEN conjunct1, THEN mp, THEN mp,
          OF libc_sample_posix libc_sample_ifaddrs])
  moreover note ok [THEN conjunct2, THEN conjunct2, THEN conjunct2, THEN mp, THEN mp,
    OF libc_sample_present app_unit_fresh]
  moreover from bad [THEN conjunct1, THEN mp, OF fresh] lacking
  have "\<not> (\<exists>s'. include_file without_ifaddrs start = Inr s')"
    by (simp only: simp_thms)
  ultimately show ?thesis by (intro conjI) assumption+
qed

text \<open>
  \<^bold>\<open>C7\<close> as stated, for every POSIX-compatible platform, fails: the platform without
  \<^verbatim>\<open>ifaddrs.h\<close> provides every header of the file that POSIX specifies, and the
  inclusion at the start of a translation unit ends at line 10 with that header missing.
\<close>

theorem posix_platform_counterexample:
  "posix_compatible without_ifaddrs
   \<and> include_file without_ifaddrs start = Inl (MissingHeader 10 ''ifaddrs.h'')"
  by (simp add: without_ifaddrs_posix without_ifaddrs_run)

text \<open>
  \<^bold>\<open>C8.\<close> The file defines one macro, \<^verbatim>\<open>SystemHeaders_h\<close>, with empty replacement
  text, undefines none, and has no line of program text, so that it introduces no other
  name. On a platform whose headers leave the macros alone, an inclusion that the guard
  lets through adds \<^verbatim>\<open>SystemHeaders_h\<close> to the macros and changes nothing else of them,
  and an inclusion with the guard defined leaves them as they are.
\<close>

theorem guard_is_the_only_macro:
  "defined_macros SystemHeaders_h = [(''SystemHeaders_h'', [])]
   \<and> undefined_macros SystemHeaders_h = []
   \<and> text_lines SystemHeaders_h = []
   \<and> ((\<forall>h H M. P h = Some H \<longrightarrow> snd (H M) = M) \<longrightarrow> include_file P s = Inr s' \<longrightarrow>
        macros s' =
          (if macros s ''SystemHeaders_h'' = None then (macros s)(''SystemHeaders_h'' \<mapsto> [])
           else macros s))"
proof (intro conjI impI)
  assume neutral: "\<forall>h H M. P h = Some H \<longrightarrow> snd (H M) = M"
    and incl: "include_file P s = Inr s'"
  show "macros s' =
      (if macros s ''SystemHeaders_h'' = None then (macros s)(''SystemHeaders_h'' \<mapsto> [])
       else macros s)"
  proof (cases "macros s ''SystemHeaders_h''")
    case None
    let ?s0 = "s\<lparr>macros := (macros s)(''SystemHeaders_h'' \<mapsto> [])\<rparr>"
    from None incl
    have run: "open_headers P 5 (include_targets SystemHeaders_h) ?s0 = Inr s'"
      by (simp add: include_file_fresh_targets)
    from open_headers_macros [OF neutral run] None show ?thesis by simp
  next
    case (Some b)
    then have "include_file P s = Inr s" by (simp add: include_file_guarded)
    with incl Some show ?thesis by simp
  qed
qed (simp_all add: defined_macros_file undefined_macros_file text_lines_file)

theorem guard_is_the_only_macro_witness:
  "macros (projr (include_file posix_sample start)) =
     (if macros start ''SystemHeaders_h'' = None then (macros start)(''SystemHeaders_h'' \<mapsto> [])
      else macros start)"
proof -
  have run: "include_file posix_sample start = Inr (projr (include_file posix_sample start))"
    by (simp add: posix_sample_run)
  have neutral: "\<forall>h H M. posix_sample h = Some H \<longrightarrow> snd (H M) = M"
    by (simp add: posix_sample_neutral)
  show ?thesis
    by (rule guard_is_the_only_macro [THEN conjunct2, THEN conjunct2, THEN conjunct2,
          THEN mp, THEN mp, OF neutral run])
qed

text \<open>
  \<^bold>\<open>C9.\<close> The six headers stand in the file in the order \<^verbatim>\<open>sys/socket.h\<close>,
  \<^verbatim>\<open>netinet/in.h\<close>, \<^verbatim>\<open>arpa/inet.h\<close>, \<^verbatim>\<open>unistd.h\<close>, \<^verbatim>\<open>netdb.h\<close>, \<^verbatim>\<open>ifaddrs.h\<close>,
  and an inclusion that the guard lets through processes them in this order, on every
  platform and in every translation unit: their text comes in this order and each header
  is read with the macros that the headers before it have left. So the text of the
  socket header comes first, and the internet address header is read after it, with the
  macros that the socket header has defined.
\<close>

theorem headers_in_fixed_order:
  "include_targets SystemHeaders_h =
     [''sys/socket.h'', ''netinet/in.h'', ''arpa/inet.h'', ''unistd.h'', ''netdb.h'', ''ifaddrs.h'']
   \<and> (macros s ''SystemHeaders_h'' = None \<longrightarrow> include_file P s = Inr s' \<longrightarrow>
        opened s' = opened s @
          [''sys/socket.h'', ''netinet/in.h'', ''arpa/inet.h'', ''unistd.h'', ''netdb.h'',
           ''ifaddrs.h'']
        \<and> emitted s' = emitted s @
          header_texts P
            [''sys/socket.h'', ''netinet/in.h'', ''arpa/inet.h'', ''unistd.h'', ''netdb.h'',
             ''ifaddrs.h'']
            ((macros s)(''SystemHeaders_h'' \<mapsto> []))
        \<and> macros s' =
          header_macros P
            [''sys/socket.h'', ''netinet/in.h'', ''arpa/inet.h'', ''unistd.h'', ''netdb.h'',
             ''ifaddrs.h'']
            ((macros s)(''SystemHeaders_h'' \<mapsto> [])))
   \<and> (macros s ''SystemHeaders_h'' = None \<longrightarrow> include_file P s = Inr s' \<longrightarrow>
       P ''sys/socket.h'' = Some H1 \<longrightarrow> P ''netinet/in.h'' = Some H2 \<longrightarrow>
        emitted s' = emitted s @
          fst (H1 ((macros s)(''SystemHeaders_h'' \<mapsto> []))) @
          fst (H2 (snd (H1 ((macros s)(''SystemHeaders_h'' \<mapsto> []))))) @
          header_texts P [''arpa/inet.h'', ''unistd.h'', ''netdb.h'', ''ifaddrs.h'']
            (snd (H2 (snd (H1 ((macros s)(''SystemHeaders_h'' \<mapsto> [])))))))"
proof (intro conjI impI)
  show "include_targets SystemHeaders_h =
     [''sys/socket.h'', ''netinet/in.h'', ''arpa/inet.h'', ''unistd.h'', ''netdb.h'', ''ifaddrs.h'']"
    by (rule include_targets_file)
next
  assume fresh: "macros s ''SystemHeaders_h'' = None" and run: "include_file P s = Inr s'"
  note state = include_file_Inr(2) [OF fresh run, unfolded include_targets_file]
  show "opened s' = opened s @
      [''sys/socket.h'', ''netinet/in.h'', ''arpa/inet.h'', ''unistd.h'', ''netdb.h'', ''ifaddrs.h'']"
    by (subst state) simp
  show "emitted s' = emitted s @
      header_texts P
        [''sys/socket.h'', ''netinet/in.h'', ''arpa/inet.h'', ''unistd.h'', ''netdb.h'', ''ifaddrs.h'']
        ((macros s)(''SystemHeaders_h'' \<mapsto> []))"
    by (subst state) simp
  show "macros s' =
      header_macros P
        [''sys/socket.h'', ''netinet/in.h'', ''arpa/inet.h'', ''unistd.h'', ''netdb.h'', ''ifaddrs.h'']
        ((macros s)(''SystemHeaders_h'' \<mapsto> []))"
    by (subst state) simp
next
  assume fresh: "macros s ''SystemHeaders_h'' = None" and run: "include_file P s = Inr s'"
    and H1: "P ''sys/socket.h'' = Some H1" and H2: "P ''netinet/in.h'' = Some H2"
  note state = include_file_Inr(2) [OF fresh run, unfolded include_targets_file]
  have "emitted s' = emitted s @
      header_texts P
        [''sys/socket.h'', ''netinet/in.h'', ''arpa/inet.h'', ''unistd.h'', ''netdb.h'', ''ifaddrs.h'']
        ((macros s)(''SystemHeaders_h'' \<mapsto> []))"
    by (subst state) simp
  also have "header_texts P
        [''sys/socket.h'', ''netinet/in.h'', ''arpa/inet.h'', ''unistd.h'', ''netdb.h'', ''ifaddrs.h'']
        ((macros s)(''SystemHeaders_h'' \<mapsto> [])) =
      fst (H1 ((macros s)(''SystemHeaders_h'' \<mapsto> []))) @
      fst (H2 (snd (H1 ((macros s)(''SystemHeaders_h'' \<mapsto> []))))) @
      header_texts P [''arpa/inet.h'', ''unistd.h'', ''netdb.h'', ''ifaddrs.h'']
        (snd (H2 (snd (H1 ((macros s)(''SystemHeaders_h'' \<mapsto> []))))))"
    using H1 H2 by (simp add: split_beta)
  finally show "emitted s' = emitted s @
      fst (H1 ((macros s)(''SystemHeaders_h'' \<mapsto> []))) @
      fst (H2 (snd (H1 ((macros s)(''SystemHeaders_h'' \<mapsto> []))))) @
      header_texts P [''arpa/inet.h'', ''unistd.h'', ''netdb.h'', ''ifaddrs.h'']
        (snd (H2 (snd (H1 ((macros s)(''SystemHeaders_h'' \<mapsto> []))))))" .
qed

theorem headers_in_fixed_order_witness:
  "emitted (projr (include_file libc_sample app_unit)) = emitted app_unit @
     [''struct sockaddr;'', ''struct sockaddr_in;'', ''int inet_pton(int, const char *, void *);'',
      ''int close(int);'', ''struct addrinfo;'', ''struct ifaddrs;'']
   \<and> emitted (projr (include_file libc_sample app_unit)) = emitted app_unit @
       [''struct sockaddr;''] @ [''struct sockaddr_in;''] @
       header_texts libc_sample [''arpa/inet.h'', ''unistd.h'', ''netdb.h'', ''ifaddrs.h'']
         (snd (netinet_in (snd (guarded ''_SYS_SOCKET_H'' [''struct sockaddr;'']
            ((macros app_unit)(''SystemHeaders_h'' \<mapsto> []))))))
   \<and> opened (projr (include_file libc_sample app_unit)) = opened app_unit @
       [''sys/socket.h'', ''netinet/in.h'', ''arpa/inet.h'', ''unistd.h'', ''netdb.h'', ''ifaddrs.h'']"
proof -
  note order = headers_in_fixed_order
    [of app_unit libc_sample "projr (include_file libc_sample app_unit)"
      "guarded ''_SYS_SOCKET_H'' [''struct sockaddr;'']" netinet_in]
  note run = order [THEN conjunct2, THEN conjunct1, THEN mp, THEN mp,
    OF app_unit_fresh libc_sample_succeeds]
  from run [THEN conjunct2, THEN conjunct1]
  have "emitted (projr (include_file libc_sample app_unit)) = emitted app_unit @
     [''struct sockaddr;'', ''struct sockaddr_in;'', ''int inet_pton(int, const char *, void *);'',
      ''int close(int);'', ''struct addrinfo;'', ''struct ifaddrs;'']"
    by (simp only: libc_sample_texts)
  moreover
  from order [THEN conjunct2, THEN conjunct2, THEN mp, THEN mp, THEN mp, THEN mp,
    OF app_unit_fresh libc_sample_succeeds libc_sample_socket libc_sample_in]
  have "emitted (projr (include_file libc_sample app_unit)) = emitted app_unit @
       [''struct sockaddr;''] @ [''struct sockaddr_in;''] @
       header_texts libc_sample [''arpa/inet.h'', ''unistd.h'', ''netdb.h'', ''ifaddrs.h'']
         (snd (netinet_in (snd (guarded ''_SYS_SOCKET_H'' [''struct sockaddr;'']
            ((macros app_unit)(''SystemHeaders_h'' \<mapsto> []))))))"
    by (simp only: libc_sample_first_two)
  moreover note run [THEN conjunct1]
  ultimately show ?thesis by (intro conjI) assumption+
qed

text \<open>
  \<^bold>\<open>C10.\<close> On a platform whose headers keep the guard macro, including the file \<open>n\<close>
  times in a row, for any \<open>n\<close> of at least one, gives the result of including it once.
  The conditional that the file opens is closed inside the file, and the file never
  undefines a macro.
\<close>

theorem inclusion_is_idempotent:
  assumes "keeps_macro P ''SystemHeaders_h''" and "1 \<le> n"
  shows "include_times P n s = include_file P s
    \<and> cond_depth SystemHeaders_h 0 = Some 0
    \<and> undefined_macros SystemHeaders_h = []"
proof -
  from assms(2) obtain k where "n = Suc k"
    by (cases n) simp_all
  with include_times_Suc [OF assms(1)] have "include_times P n s = include_file P s"
    by simp
  then show ?thesis
    by (simp add: cond_depth_file undefined_macros_file)
qed

theorem inclusion_is_idempotent_witness:
  "include_times posix_sample 7 start = include_file posix_sample start"
proof -
  have "(1::nat) \<le> 7" by simp
  from inclusion_is_idempotent [OF posix_sample_keeps this, of start]
  show ?thesis by (rule conjunct1)
qed

end
